theory Spec2Isabelle
  imports Complex_Main
begin

section \<open>Value iteration with an error-rate stopping bound\<close>

text \<open>
  A shallow embedding of \<^verbatim>\<open>mdp_framework/agent/value_iteration_error_rate.py\<close>:
  the class \<^verbatim>\<open>Agent\<close> with its constructor (the sweep loop and the policy loop),
  \<^verbatim>\<open>actionMaximumExpectedUtility\<close> and \<^verbatim>\<open>getAction\<close>.
\<close>

subsection \<open>Numbers\<close>

text \<open>
  The source computes with Python floats and uses \<^verbatim>\<open>float("inf")\<close> and
  \<^verbatim>\<open>float("-inf")\<close> as start values. A float is modelled as a real number or
  one of the three special values; finite arithmetic is exact (no rounding, no overflow,
  no signed zero), the special values follow IEEE 754 as Python does.
\<close>

datatype pyfloat = NaN | NInf | Fin real | PInf

fun fneg :: "pyfloat \<Rightarrow> pyfloat" where
  "fneg NaN = NaN"
| "fneg NInf = PInf"
| "fneg (Fin x) = Fin (- x)"
| "fneg PInf = NInf"

fun fadd :: "pyfloat \<Rightarrow> pyfloat \<Rightarrow> pyfloat" where
  "fadd (Fin x) (Fin y) = Fin (x + y)"
| "fadd NaN _ = NaN"
| "fadd _ NaN = NaN"
| "fadd PInf NInf = NaN"
| "fadd NInf PInf = NaN"
| "fadd PInf _ = PInf"
| "fadd _ PInf = PInf"
| "fadd NInf _ = NInf"
| "fadd _ NInf = NInf"

definition fsub :: "pyfloat \<Rightarrow> pyfloat \<Rightarrow> pyfloat" where
  "fsub a b = fadd a (fneg b)"

definition inf_times :: "real \<Rightarrow> pyfloat \<Rightarrow> pyfloat" where
  \<comment> \<open>an infinity \<open>i\<close> multiplied by the finite number \<open>x\<close>\<close>
  "inf_times x i = (if x = 0 then NaN else if 0 < x then i else fneg i)"

fun fmul :: "pyfloat \<Rightarrow> pyfloat \<Rightarrow> pyfloat" where
  "fmul (Fin x) (Fin y) = Fin (x * y)"
| "fmul NaN _ = NaN"
| "fmul _ NaN = NaN"
| "fmul (Fin x) PInf = inf_times x PInf"
| "fmul (Fin x) NInf = inf_times x NInf"
| "fmul PInf (Fin y) = inf_times y PInf"
| "fmul NInf (Fin y) = inf_times y NInf"
| "fmul PInf PInf = PInf"
| "fmul PInf NInf = NInf"
| "fmul NInf PInf = NInf"
| "fmul NInf NInf = PInf"

fun fabs :: "pyfloat \<Rightarrow> pyfloat" where
  "fabs NaN = NaN"
| "fabs NInf = PInf"
| "fabs (Fin x) = Fin \<bar>x\<bar>"
| "fabs PInf = PInf"

text \<open>\<^verbatim>\<open>a > b\<close>: false as soon as one side is NaN.\<close>

fun fgt :: "pyfloat \<Rightarrow> pyfloat \<Rightarrow> bool" where
  "fgt (Fin x) (Fin y) = (y < x)"
| "fgt NaN _ = False"
| "fgt _ NaN = False"
| "fgt _ PInf = False"
| "fgt PInf _ = True"
| "fgt NInf _ = False"
| "fgt (Fin x) NInf = True"

subsection \<open>Errors\<close>

text \<open>
  \<open>KeyError\<close> and \<open>ZeroDivisionError\<close> are the exceptions the source can raise:
  a dictionary read \<^verbatim>\<open>d[k]\<close> of an absent key, and the float division of the loop
  condition. The five other constructors are the error kinds named by the specification;
  no statement of the source raises them.
\<close>

datatype error =
    KeyError
  | ZeroDivisionError
  | InvalidDiscountFactor
  | InvalidErrorRate
  | NoFeasibleActionError
  | MalformedTransitionError
  | UnknownStateError

subsection \<open>The environment and the agent\<close>

text \<open>
  The environment class is not part of the module; the agent reads five attributes of
  it. \<^verbatim>\<open>stateSet\<close> and \<^verbatim>\<open>actionSet\<close> are iterated, so they are lists in the
  order of enumeration; \<^verbatim>\<open>transition(state, action)\<close> returns a dictionary from
  states to probabilities. The display hook \<^verbatim>\<open>displayValueFunction\<close> and the
  \<^verbatim>\<open>print\<close> of each sweep write to the screen only and are left out, with the
  sweep counter that only they read.
\<close>

record ('s, 'a) environment =
  stateSet :: "'s list"
  actionSet :: "'a list"
  finalStateSet :: "'s set"
  reward :: "'s \<Rightarrow> real"
  transition :: "'s \<Rightarrow> 'a \<Rightarrow> ('s \<rightharpoonup> real)"

text \<open>
  The attributes of \<^verbatim>\<open>self\<close>. A policy entry is \<open>None\<close> where the source stores
  Python's \<^verbatim>\<open>None\<close>.
\<close>

record ('s, 'a) agent =
  environment :: "('s, 'a) environment"
  discountFactor :: real
  maximumErrorRate :: real
  valueUtility :: "'s \<rightharpoonup> pyfloat"
  policy :: "'s \<rightharpoonup> 'a option"

subsection \<open>actionMaximumExpectedUtility\<close>

text \<open>
  The inner loop, \<^verbatim>\<open>for next_state in self.environment.stateSet\<close>: the
  accumulator is \<^verbatim>\<open>expected_action_utility\<close>. The left factor is read first, so a
  key missing from the transition dictionary is met before one missing from
  \<^verbatim>\<open>self.valueUtility\<close>.
\<close>

fun expected_utility_loop ::
  "('s, 'a) agent \<Rightarrow> 's \<Rightarrow> 'a \<Rightarrow> 's list \<Rightarrow> pyfloat \<Rightarrow> error + pyfloat" where
  "expected_utility_loop self state action [] expected_action_utility =
     Inr expected_action_utility"
| "expected_utility_loop self state action (next_state # rest) expected_action_utility =
     (case transition (environment self) state action next_state of
        None \<Rightarrow> Inl KeyError
      | Some p \<Rightarrow>
          (case valueUtility self next_state of
             None \<Rightarrow> Inl KeyError
           | Some v \<Rightarrow>
               expected_utility_loop self state action rest
                 (fadd expected_action_utility (fmul (Fin p) v))))"

text \<open>
  The outer loop, \<^verbatim>\<open>for action in self.environment.actionSet\<close>: the accumulator
  is the pair \<^verbatim>\<open>(best_action, best_action_utility)\<close>.
\<close>

fun action_loop ::
  "('s, 'a) agent \<Rightarrow> 's \<Rightarrow> 'a list \<Rightarrow> 'a option \<times> pyfloat \<Rightarrow> error + ('a option \<times> pyfloat)"
  where
  "action_loop self state [] best = Inr best"
| "action_loop self state (action # rest) (best_action, best_action_utility) =
     (case expected_utility_loop self state action (stateSet (environment self)) (Fin 0) of
        Inl e \<Rightarrow> Inl e
      | Inr expected_action_utility \<Rightarrow>
          if fgt expected_action_utility best_action_utility
          then action_loop self state rest (Some action, expected_action_utility)
          else action_loop self state rest (best_action, best_action_utility))"

definition actionMaximumExpectedUtility ::
  "('s, 'a) agent \<Rightarrow> 's \<Rightarrow> error + ('a option \<times> pyfloat)" where
  "actionMaximumExpectedUtility self state =
     action_loop self state (actionSet (environment self)) (None, NInf)"

definition getAction :: "('s, 'a) agent \<Rightarrow> 's \<Rightarrow> error + 'a option" where
  "getAction self state =
     (case actionMaximumExpectedUtility self state of
        Inl e \<Rightarrow> Inl e
      | Inr (action, action_meu) \<Rightarrow> Inr action)"

subsection \<open>The constructor\<close>

text \<open>
  One sweep, \<^verbatim>\<open>for state in self.environment.stateSet\<close>: the accumulator is the
  pair \<^verbatim>\<open>(next_value_utility, maximum_change_utility)\<close>; \<^verbatim>\<open>self\<close> is
  only read.
\<close>

fun sweep_loop ::
  "('s, 'a) agent \<Rightarrow> 's list \<Rightarrow> ('s \<rightharpoonup> pyfloat) \<times> pyfloat \<Rightarrow>
     error + (('s \<rightharpoonup> pyfloat) \<times> pyfloat)" where
  "sweep_loop self [] acc = Inr acc"
| "sweep_loop self (state # rest) (next_value_utility, maximum_change_utility) =
     (if state \<in> finalStateSet (environment self)
      then sweep_loop self rest
             (next_value_utility(state \<mapsto> Fin (reward (environment self) state)),
              maximum_change_utility)
      else
        (case actionMaximumExpectedUtility self state of
           Inl e \<Rightarrow> Inl e
         | Inr (action, action_meu) \<Rightarrow>
             (let new_value = fadd (Fin (reward (environment self) state))
                                (fmul (Fin (discountFactor self)) action_meu)
              in case valueUtility self state of
                   None \<Rightarrow> Inl KeyError
                 | Some old_value \<Rightarrow>
                     (let delta = fabs (fsub old_value new_value)
                      in sweep_loop self rest
                           (next_value_utility(state \<mapsto> new_value),
                            if fgt delta maximum_change_utility then delta
                            else maximum_change_utility)))))"

text \<open>
  The right-hand side of the loop condition,
  \<^verbatim>\<open>self.maximumErrorRate * (1. - self.discountFactor) / self.discountFactor\<close>.
  Python raises on a float division by zero.
\<close>

definition stop_bound :: "('s, 'a) agent \<Rightarrow> error + real" where
  "stop_bound self =
     (if discountFactor self = 0 then Inl ZeroDivisionError
      else Inr (maximumErrorRate self * (1 - discountFactor self) / discountFactor self))"

text \<open>
  The \<^verbatim>\<open>while\<close> loop. Its state is \<^verbatim>\<open>self\<close> (of which the sweep replaces
  \<^verbatim>\<open>valueUtility\<close>) and \<^verbatim>\<open>maximum_change_utility\<close>. The loop need not
  stop: \<open>None\<close> is a run that never leaves the loop.
\<close>

partial_function (option) while_loop ::
  "('s, 'a) agent \<Rightarrow> pyfloat \<Rightarrow> (error + ('s, 'a) agent) option" where
  "while_loop self maximum_change_utility =
     (case stop_bound self of
        Inl e \<Rightarrow> Some (Inl e)
      | Inr bound \<Rightarrow>
          if fgt maximum_change_utility (Fin bound)
          then
            (case sweep_loop self (stateSet (environment self)) (Map.empty, Fin 0) of
               Inl e \<Rightarrow> Some (Inl e)
             | Inr (next_value_utility, maximum_change_utility') \<Rightarrow>
                 while_loop (self\<lparr>valueUtility := next_value_utility\<rparr>)
                   maximum_change_utility')
          else Some (Inr self))"

text \<open>The last loop of the constructor, which fills \<^verbatim>\<open>self.policy\<close>.\<close>

fun policy_loop :: "('s, 'a) agent \<Rightarrow> 's list \<Rightarrow> error + ('s, 'a) agent" where
  "policy_loop self [] = Inr self"
| "policy_loop self (state # rest) =
     (case actionMaximumExpectedUtility self state of
        Inl e \<Rightarrow> Inl e
      | Inr (action, action_meu) \<Rightarrow>
          policy_loop (self\<lparr>policy := (policy self)(state \<mapsto> action)\<rparr>) rest)"

text \<open>
  \<^verbatim>\<open>Agent.__init__\<close>. The attribute \<^verbatim>\<open>policy\<close> does not exist before the
  last loop; the empty dictionary stands for that.
\<close>

definition init_self :: "('s, 'a) environment \<Rightarrow> real \<Rightarrow> real \<Rightarrow> ('s, 'a) agent" where
  "init_self env discount_factor maximum_error_rate =
     \<lparr>environment = env,
      discountFactor = discount_factor,
      maximumErrorRate = maximum_error_rate,
      valueUtility = map_of (map (\<lambda>state. (state, Fin 0)) (stateSet env)),
      policy = Map.empty\<rparr>"

definition Agent_init ::
  "('s, 'a) environment \<Rightarrow> real \<Rightarrow> real \<Rightarrow> (error + ('s, 'a) agent) option" where
  "Agent_init env discount_factor maximum_error_rate =
     (case while_loop (init_self env discount_factor maximum_error_rate) PInf of
        None \<Rightarrow> None
      | Some (Inl e) \<Rightarrow> Some (Inl e)
      | Some (Inr self) \<Rightarrow>
          Some (policy_loop (self\<lparr>policy := Map.empty\<rparr>) (stateSet (environment self))))"

subsection \<open>Notions used to state the properties\<close>

text \<open>
  The value that the specification gives to one state in a sweep, written from its
  section 4.2: \<open>R(s)\<close> for a final state, \<open>R(s) + \<gamma> \<cdot> bestAction(s, V).expectedUtility\<close>
  otherwise, where \<open>V\<close> is the value function of \<open>self\<close>, the one before the sweep.
\<close>

definition spec_next_value :: "('s, 'a) agent \<Rightarrow> 's \<Rightarrow> error + pyfloat" where
  "spec_next_value self s =
     (if s \<in> finalStateSet (environment self) then Inr (Fin (reward (environment self) s))
      else
        (case actionMaximumExpectedUtility self s of
           Inl e \<Rightarrow> Inl e
         | Inr (a, u) \<Rightarrow>
             Inr (fadd (Fin (reward (environment self) s)) (fmul (Fin (discountFactor self)) u))))"

text \<open>
  The body of the \<^verbatim>\<open>while\<close> loop run \<open>n\<close> times without looking at the loop
  condition: the state of the loop after \<open>n\<close> sweeps, that is \<^verbatim>\<open>self\<close> and the
  \<^verbatim>\<open>maximum_change_utility\<close> of the last sweep (the start value for \<open>n = 0\<close>).
\<close>

fun sweeps ::
  "('s, 'a) agent \<Rightarrow> pyfloat \<Rightarrow> nat \<Rightarrow> error + (('s, 'a) agent \<times> pyfloat)" where
  "sweeps self maximum_change_utility 0 = Inr (self, maximum_change_utility)"
| "sweeps self maximum_change_utility (Suc n) =
     (case sweep_loop self (stateSet (environment self)) (Map.empty, Fin 0) of
        Inl e \<Rightarrow> Inl e
      | Inr (next_value_utility, maximum_change_utility') \<Rightarrow>
          sweeps (self\<lparr>valueUtility := next_value_utility\<rparr>) maximum_change_utility' n)"


text \<open>Every state of \<^verbatim>\<open>stateSet\<close> has a value, and it is a number.\<close>

definition finite_valued :: "('s, 'a) agent \<Rightarrow> bool" where
  "finite_valued self \<longleftrightarrow>
     (\<forall>s \<in> set (stateSet (environment self)). \<exists>r. valueUtility self s = Some (Fin r))"






subsection \<open>Concrete environments\<close>

text \<open>
  Scenario A of the specification: two states, \<open>s1\<close> final with reward 10, \<open>s0\<close> with
  reward 0, and one action that moves to \<open>s1\<close> with probability 1. The dictionary that
  \<^verbatim>\<open>transition\<close> returns has an entry for each state of \<^verbatim>\<open>stateSet\<close>.
  \<open>s2\<close> is a state outside every \<^verbatim>\<open>stateSet\<close> below.
\<close>

datatype demo_state = s0 | s1 | s2

datatype demo_action = go

definition scenario_A :: "(demo_state, demo_action) environment" where
  "scenario_A =
     \<lparr>stateSet = [s0, s1], actionSet = [go], finalStateSet = {s1},
      reward = (\<lambda>s. if s = s1 then 10 else 0),
      transition = (\<lambda>s a. [s0 \<mapsto> 0, s1 \<mapsto> 1])\<rparr>"

text \<open>The agent that the constructor returns for scenario A (see \<open>scenario_A_run\<close>).\<close>

definition scenario_A_agent :: "real \<Rightarrow> (demo_state, demo_action) agent" where
  "scenario_A_agent discount_factor =
     \<lparr>environment = scenario_A, discountFactor = discount_factor, maximumErrorRate = 1 / 100,
      valueUtility = [s0 \<mapsto> Fin 0, s1 \<mapsto> Fin 10],
      policy = [s0 \<mapsto> Some go, s1 \<mapsto> Some go]\<rparr>"

text \<open>
  Variants of scenario A: the reward of \<open>s0\<close> is 1 (the loop then makes three sweeps);
  the action set is empty (scenario D of the specification); the probabilities of each
  transition sum to one half (scenario C); the transition dictionary has no entry for
  \<open>s0\<close>.
\<close>

definition scenario_R :: "(demo_state, demo_action) environment" where
  "scenario_R = scenario_A\<lparr>reward := (\<lambda>s. if s = s1 then 10 else 1)\<rparr>"

definition scenario_R_agent :: "(demo_state, demo_action) agent" where
  "scenario_R_agent =
     \<lparr>environment = scenario_R, discountFactor = 9 / 10, maximumErrorRate = 1 / 100,
      valueUtility = [s0 \<mapsto> Fin 10, s1 \<mapsto> Fin 10],
      policy = Map.empty\<rparr>"

definition scenario_D :: "(demo_state, demo_action) environment" where
  "scenario_D = scenario_A\<lparr>actionSet := []\<rparr>"

definition scenario_D_agent :: "(demo_state, demo_action) agent" where
  "scenario_D_agent =
     \<lparr>environment = scenario_D, discountFactor = 9 / 10, maximumErrorRate = 1 / 100,
      valueUtility = [s0 \<mapsto> NInf, s1 \<mapsto> Fin 10],
      policy = [s0 \<mapsto> None, s1 \<mapsto> None]\<rparr>"

definition scenario_C :: "(demo_state, demo_action) environment" where
  "scenario_C = scenario_A\<lparr>transition := (\<lambda>s a. [s0 \<mapsto> 0, s1 \<mapsto> 1 / 2])\<rparr>"

definition scenario_C_agent :: "(demo_state, demo_action) agent" where
  "scenario_C_agent =
     \<lparr>environment = scenario_C, discountFactor = 9 / 10, maximumErrorRate = 1 / 100,
      valueUtility = [s0 \<mapsto> Fin 0, s1 \<mapsto> Fin 10],
      policy = [s0 \<mapsto> Some go, s1 \<mapsto> Some go]\<rparr>"

definition scenario_sparse :: "(demo_state, demo_action) environment" where
  "scenario_sparse = scenario_A\<lparr>transition := (\<lambda>s a. [s1 \<mapsto> 1])\<rparr>"

section \<open>Properties\<close>

subsection \<open>The loops of actionMaximumExpectedUtility\<close>



lemma expected_utility_loop_error:
  "expected_utility_loop self s a ss acc = Inl e \<Longrightarrow> e = KeyError"
  by (induction ss arbitrary: acc) (auto split: option.splits)

lemma expected_utility_loop_policy [simp]:
  "expected_utility_loop (self\<lparr>policy := p\<rparr>) s a ss acc = expected_utility_loop self s a ss acc"
  by (induction ss arbitrary: acc) (auto split: option.splits)

lemma action_loop_policy [simp]:
  "action_loop (self\<lparr>policy := p\<rparr>) s as best = action_loop self s as best"
  by (induction as arbitrary: best) (auto split: sum.splits)

lemma actionMaximumExpectedUtility_policy [simp]:
  "actionMaximumExpectedUtility (self\<lparr>policy := p\<rparr>) s = actionMaximumExpectedUtility self s"
  by (simp add: actionMaximumExpectedUtility_def)

lemma action_loop_error:
  "action_loop self s as best = Inl e \<Longrightarrow> e = KeyError"
  by (induction as arbitrary: best) (auto split: sum.splits if_splits dest: expected_utility_loop_error)

lemma actionMaximumExpectedUtility_error:
  "actionMaximumExpectedUtility self s = Inl e \<Longrightarrow> e = KeyError"
  unfolding actionMaximumExpectedUtility_def by (rule action_loop_error)

lemma policy_loop_result:
  "policy_loop self ss = Inr self' \<Longrightarrow>
     environment self' = environment self \<and>
     discountFactor self' = discountFactor self \<and>
     maximumErrorRate self' = maximumErrorRate self \<and>
     valueUtility self' = valueUtility self \<and>
     (\<forall>s \<in> set ss. \<exists>a u. actionMaximumExpectedUtility self s = Inr (a, u) \<and> policy self' s = Some a) \<and>
     (\<forall>s. s \<notin> set ss \<longrightarrow> policy self' s = policy self s)"
proof (induction ss arbitrary: self)
  case Nil
  then show ?case by simp
next
  case (Cons x xs)
  from Cons.prems obtain a u where
    meu: "actionMaximumExpectedUtility self x = Inr (a, u)" and
    rest: "policy_loop (self\<lparr>policy := (policy self)(x \<mapsto> a)\<rparr>) xs = Inr self'"
    by (auto split: sum.splits)
  note IH = Cons.IH [OF rest]
  show ?case
  proof (intro conjI ballI allI impI)
    fix s assume "s \<in> set (x # xs)"
    show "\<exists>a u. actionMaximumExpectedUtility self s = Inr (a, u) \<and> policy self' s = Some a"
    proof (cases "s \<in> set xs")
      case True
      with IH show ?thesis by simp
    next
      case False
      with \<open>s \<in> set (x # xs)\<close> have "s = x" by simp
      with False IH meu show ?thesis by simp
    qed
  qed (use IH in simp_all)
qed

lemma policy_loop_error:
  "policy_loop self ss = Inl e \<Longrightarrow> e = KeyError"
  by (induction ss arbitrary: self) (auto split: sum.splits dest: actionMaximumExpectedUtility_error)

lemma expected_utility_loop_cong:
  "environment self = environment self' \<Longrightarrow> valueUtility self = valueUtility self' \<Longrightarrow>
   expected_utility_loop self s a ss acc = expected_utility_loop self' s a ss acc"
  by (induction ss arbitrary: acc) (auto split: option.splits)

lemma action_loop_cong:
  "environment self = environment self' \<Longrightarrow> valueUtility self = valueUtility self' \<Longrightarrow>
   action_loop self s as best = action_loop self' s as best"
proof (induction as arbitrary: best)
  case Nil
  then show ?case by simp
next
  case (Cons a as)
  obtain ba bu where best: "best = (ba, bu)" by (cases best)
  from Cons.prems have
    "expected_utility_loop self s a (stateSet (environment self)) (Fin 0) =
     expected_utility_loop self' s a (stateSet (environment self')) (Fin 0)"
    using expected_utility_loop_cong [of self self'] by simp
  with Cons show ?case unfolding best by (simp split: sum.splits)
qed

lemma actionMaximumExpectedUtility_cong:
  "environment self = environment self' \<Longrightarrow> valueUtility self = valueUtility self' \<Longrightarrow>
   actionMaximumExpectedUtility self s = actionMaximumExpectedUtility self' s"
  unfolding actionMaximumExpectedUtility_def using action_loop_cong [of self self'] by simp

lemma sweep_loop_error:
  "sweep_loop self ss acc = Inl e \<Longrightarrow> e = KeyError"
proof (induction ss arbitrary: acc)
  case Nil
  then show ?case by simp
next
  case (Cons x xs)
  obtain nxt mc where acc: "acc = (nxt, mc)" by (cases acc)
  from Cons.prems show ?case unfolding acc
    by (auto simp: Let_def split: if_splits sum.splits option.splits
          dest: actionMaximumExpectedUtility_error Cons.IH)
qed

lemma while_loop_frame:
  assumes ret: "while_loop self mc = Some (Inr self')"
  shows "environment self' = environment self \<and> discountFactor self' = discountFactor self \<and>
         maximumErrorRate self' = maximumErrorRate self \<and> policy self' = policy self"
proof -
  have "\<forall>self'. r = Inr self' \<longrightarrow>
          environment self' = environment self \<and> discountFactor self' = discountFactor self \<and>
          maximumErrorRate self' = maximumErrorRate self \<and> policy self' = policy self"
    if "while_loop self mc = Some r" for r
  proof (rule while_loop.raw_induct [where P = "\<lambda>self mc r. \<forall>self'. r = Inr self' \<longrightarrow>
          environment self' = environment self \<and> discountFactor self' = discountFactor self \<and>
          maximumErrorRate self' = maximumErrorRate self \<and> policy self' = policy self", OF _ that])
    fix f and self :: "('a, 'b) agent" and mc r
    assume IH: "\<And>self mc r. f self mc = Some r \<Longrightarrow> \<forall>self'. r = Inr self' \<longrightarrow>
          environment self' = environment self \<and> discountFactor self' = discountFactor self \<and>
          maximumErrorRate self' = maximumErrorRate self \<and> policy self' = policy self"
      and eq: "(case stop_bound self of
        Inl e \<Rightarrow> Some (Inl e)
      | Inr bound \<Rightarrow>
          if fgt mc (Fin bound)
          then
            (case sweep_loop self (stateSet (environment self)) (Map.empty, Fin 0) of
               Inl e \<Rightarrow> Some (Inl e)
             | Inr (next_value_utility, maximum_change_utility') \<Rightarrow>
                 f (self\<lparr>valueUtility := next_value_utility\<rparr>)
                   maximum_change_utility')
          else Some (Inr self)) = Some r"
    show "\<forall>self'. r = Inr self' \<longrightarrow>
          environment self' = environment self \<and> discountFactor self' = discountFactor self \<and>
          maximumErrorRate self' = maximumErrorRate self \<and> policy self' = policy self"
    proof (intro allI impI)
      fix self' assume r: "r = Inr self'"
      show "environment self' = environment self \<and> discountFactor self' = discountFactor self \<and>
          maximumErrorRate self' = maximumErrorRate self \<and> policy self' = policy self"
      proof (cases "stop_bound self")
        case (Inl e)
        with eq r show ?thesis by simp
      next
        case (Inr bound)
        show ?thesis
        proof (cases "fgt mc (Fin bound)")
          case False
          with eq r Inr show ?thesis by simp
        next
          case True
          show ?thesis
          proof (cases "sweep_loop self (stateSet (environment self)) (Map.empty, Fin 0)")
            case (Inl e)
            with eq r Inr True show ?thesis by simp
          next
            case sw: (Inr res)
            obtain nxt mc' where res: "res = (nxt, mc')" by (cases res)
            from eq Inr True sw res have "f (self\<lparr>valueUtility := nxt\<rparr>) mc' = Some r" by simp
            from IH [OF this] r show ?thesis by simp
          qed
        qed
      qed
    qed
  qed
  with ret show ?thesis by blast
qed

lemma while_loop_error:
  assumes ret: "while_loop self mc = Some (Inl e)"
  shows "e = KeyError \<or> e = ZeroDivisionError \<and> discountFactor self = 0"
proof -
  have "\<forall>e. r = Inl e \<longrightarrow> e = KeyError \<or> e = ZeroDivisionError \<and> discountFactor self = 0"
    if "while_loop self mc = Some r" for r
  proof (rule while_loop.raw_induct [where P = "\<lambda>self mc r. \<forall>e. r = Inl e \<longrightarrow>
           e = KeyError \<or> e = ZeroDivisionError \<and> discountFactor self = 0", OF _ that])
    fix f and self :: "('a, 'b) agent" and mc r
    assume IH: "\<And>self mc r. f self mc = Some r \<Longrightarrow> \<forall>e. r = Inl e \<longrightarrow>
           e = KeyError \<or> e = ZeroDivisionError \<and> discountFactor self = 0"
      and eq: "(case stop_bound self of
        Inl e \<Rightarrow> Some (Inl e)
      | Inr bound \<Rightarrow>
          if fgt mc (Fin bound)
          then
            (case sweep_loop self (stateSet (environment self)) (Map.empty, Fin 0) of
               Inl e \<Rightarrow> Some (Inl e)
             | Inr (next_value_utility, maximum_change_utility') \<Rightarrow>
                 f (self\<lparr>valueUtility := next_value_utility\<rparr>)
                   maximum_change_utility')
          else Some (Inr self)) = Some r"
    show "\<forall>e. r = Inl e \<longrightarrow> e = KeyError \<or> e = ZeroDivisionError \<and> discountFactor self = 0"
    proof (intro allI impI)
      fix e assume r: "r = Inl e"
      show "e = KeyError \<or> e = ZeroDivisionError \<and> discountFactor self = 0"
      proof (cases "stop_bound self")
        case (Inl e')
        with eq r show ?thesis by (simp add: stop_bound_def split: if_splits)
      next
        case (Inr bound)
        show ?thesis
        proof (cases "fgt mc (Fin bound)")
          case False
          with eq r Inr show ?thesis by simp
        next
          case True
          show ?thesis
          proof (cases "sweep_loop self (stateSet (environment self)) (Map.empty, Fin 0)")
            case (Inl e')
            with eq r Inr True have "e' = e" by simp
            with Inl sweep_loop_error show ?thesis by blast
          next
            case sw: (Inr res)
            obtain nxt mc' where res: "res = (nxt, mc')" by (cases res)
            from eq Inr True sw res have "f (self\<lparr>valueUtility := nxt\<rparr>) mc' = Some r" by simp
            from IH [OF this] r show ?thesis by simp
          qed
        qed
      qed
    qed
  qed
  with ret show ?thesis by blast
qed

lemma Agent_init_split:
  assumes "Agent_init env g eps = Some (Inr ag)"
  obtains self where "while_loop (init_self env g eps) PInf = Some (Inr self)"
    and "policy_loop (self\<lparr>policy := Map.empty\<rparr>) (stateSet env) = Inr ag"
    and "environment self = env"
proof -
  from assms obtain self where w: "while_loop (init_self env g eps) PInf = Some (Inr self)"
    and p: "policy_loop (self\<lparr>policy := Map.empty\<rparr>) (stateSet (environment self)) = Inr ag"
    by (auto simp: Agent_init_def split: option.splits sum.splits)
  from while_loop_frame [OF w] have "environment self = env" by (simp add: init_self_def)
  with w p that show thesis by simp
qed

subsection \<open>One sweep and the loop of sweeps\<close>

lemma sweep_loop_step:
  assumes "sweep_loop self (x # xs) (nxt, mc) = Inr res"
  obtains v mc1 where "spec_next_value self x = Inr v"
    and "sweep_loop self xs (nxt(x \<mapsto> v), mc1) = Inr res"
proof (cases "x \<in> finalStateSet (environment self)")
  case True
  with assms that show thesis by (simp add: spec_next_value_def)
next
  case False
  with assms obtain a u where meu: "actionMaximumExpectedUtility self x = Inr (a, u)"
    by (auto split: sum.splits)
  with assms False obtain old where old: "valueUtility self x = Some old"
    by (auto simp: Let_def split: option.splits)
  from False meu have "spec_next_value self x =
     Inr (fadd (Fin (reward (environment self) x)) (fmul (Fin (discountFactor self)) u))"
    by (simp add: spec_next_value_def)
  moreover from assms False meu old have "\<exists>mc1. sweep_loop self xs
     (nxt(x \<mapsto> fadd (Fin (reward (environment self) x)) (fmul (Fin (discountFactor self)) u)), mc1) = Inr res"
    by (auto simp: Let_def)
  ultimately show thesis using that by blast
qed

lemma sweep_loop_values:
  "sweep_loop self ss (nxt, mc) = Inr (nxt', mc') \<Longrightarrow>
     (\<forall>s \<in> set ss. \<exists>v. spec_next_value self s = Inr v \<and> nxt' s = Some v) \<and>
     (\<forall>s. s \<notin> set ss \<longrightarrow> nxt' s = nxt s)"
proof (induction ss arbitrary: nxt mc)
  case Nil
  then show ?case by simp
next
  case (Cons x xs)
  from Cons.prems obtain v mc1 where
    v: "spec_next_value self x = Inr v" and
    rest: "sweep_loop self xs (nxt(x \<mapsto> v), mc1) = Inr (nxt', mc')"
    by (rule sweep_loop_step)
  note IH = Cons.IH [OF rest]
  show ?case
  proof (intro conjI ballI allI impI)
    fix s assume s: "s \<in> set (x # xs)"
    show "\<exists>v. spec_next_value self s = Inr v \<and> nxt' s = Some v"
    proof (cases "s \<in> set xs")
      case True
      with IH show ?thesis by blast
    next
      case False
      with s have "s = x" by simp
      with False IH v show ?thesis by simp
    qed
  next
    fix s assume "s \<notin> set (x # xs)"
    with IH show "nxt' s = nxt s" by simp
  qed
qed

lemma sweeps_frame:
  "sweeps self mc n = Inr (self', mc') \<Longrightarrow>
     environment self' = environment self \<and> discountFactor self' = discountFactor self \<and>
     maximumErrorRate self' = maximumErrorRate self \<and> policy self' = policy self"
proof (induction n arbitrary: self mc)
  case 0
  then show ?case by simp
next
  case (Suc n)
  from Suc.prems obtain nxt mc1 where
    "sweeps (self\<lparr>valueUtility := nxt\<rparr>) mc1 n = Inr (self', mc')"
    by (auto split: sum.splits)
  from Suc.IH [OF this] show ?case by simp
qed

lemma sweeps_last:
  "sweeps self mc (Suc n) = Inr (self', mc') \<Longrightarrow>
     \<exists>self1 mc1 nxt. sweeps self mc n = Inr (self1, mc1) \<and>
       sweep_loop self1 (stateSet (environment self1)) (Map.empty, Fin 0) = Inr (nxt, mc') \<and>
       self' = self1\<lparr>valueUtility := nxt\<rparr>"
proof (induction n arbitrary: self mc)
  case 0
  then show ?case by (auto split: sum.splits)
next
  case (Suc n)
  from Suc.prems obtain nxt0 mc0 where
    first: "sweep_loop self (stateSet (environment self)) (Map.empty, Fin 0) = Inr (nxt0, mc0)"
    and rest: "sweeps (self\<lparr>valueUtility := nxt0\<rparr>) mc0 (Suc n) = Inr (self', mc')"
    by (auto split: sum.splits)
  from Suc.IH [OF rest] first show ?case by simp
qed















lemma stop_bound_valueUtility [simp]:
  "stop_bound (self\<lparr>valueUtility := V\<rparr>) = stop_bound self"
  by (simp add: stop_bound_def)







lemma init_self_finite_valued: "finite_valued (init_self env g eps)"
  by (auto simp: finite_valued_def init_self_def map_of_map_restrict restrict_map_def)

subsection \<open>The errors of the constructor\<close>

lemma Agent_init_error:
  assumes "Agent_init env g eps = Some (Inl e)"
  shows "e = KeyError \<or> e = ZeroDivisionError \<and> g = 0"
proof (cases "while_loop (init_self env g eps) PInf")
  case None
  with assms show ?thesis by (simp add: Agent_init_def)
next
  case (Some r)
  show ?thesis
  proof (cases r)
    case (Inl e')
    with Some assms have "e' = e" by (simp add: Agent_init_def)
    with Some Inl while_loop_error [of "init_self env g eps" PInf e] show ?thesis
      by (simp add: init_self_def)
  next
    case (Inr self)
    with Some assms
    have "policy_loop (self\<lparr>policy := Map.empty\<rparr>) (stateSet (environment self)) = Inl e"
      by (simp add: Agent_init_def)
    from policy_loop_error [OF this] show ?thesis by simp
  qed
qed







lemma sweep_loop_no_actions:
  assumes "actionSet (environment self) = []"
  shows "\<forall>s \<in> set ss. s \<in> finalStateSet (environment self) \<or> valueUtility self s \<noteq> None \<Longrightarrow>
         \<exists>res. sweep_loop self ss (nxt, mc) = Inr res"
proof (induction ss arbitrary: nxt mc)
  case Nil
  then show ?case by simp
next
  case (Cons x xs)
  from assms have meu: "actionMaximumExpectedUtility self x = Inr (None, NInf)"
    by (simp add: actionMaximumExpectedUtility_def)
  from Cons.prems have rest: "\<forall>s \<in> set xs. s \<in> finalStateSet (environment self) \<or> valueUtility self s \<noteq> None"
    by simp
  show ?case
  proof (cases "x \<in> finalStateSet (environment self)")
    case True
    with Cons.IH [OF rest] show ?thesis by simp
  next
    case False
    with Cons.prems obtain old where "valueUtility self x = Some old" by auto
    with False meu Cons.IH [OF rest] show ?thesis by (simp add: Let_def)
  qed
qed

lemma init_self_values:
  "s \<in> set (stateSet env) \<Longrightarrow> valueUtility (init_self env g eps) s = Some (Fin 0)"
  using init_self_finite_valued [of env g eps]
  by (auto simp: init_self_def map_of_map_restrict restrict_map_def)


lemma getAction_error: "getAction self s = Inl e \<Longrightarrow> e = KeyError"
  by (auto simp: getAction_def split: sum.splits dest: actionMaximumExpectedUtility_error)

subsection \<open>The policy of a constructed agent\<close>

lemma Agent_init_policy_dom:
  assumes "Agent_init env g eps = Some (Inr ag)"
  shows "policy ag s = None \<longleftrightarrow> s \<notin> set (stateSet env)"
proof -
  from assms obtain self where
    p: "policy_loop (self\<lparr>policy := Map.empty\<rparr>) (stateSet env) = Inr ag"
    by (rule Agent_init_split)
  note R = policy_loop_result [OF p]
  show ?thesis
  proof (cases "s \<in> set (stateSet env)")
    case True
    with R show ?thesis by auto
  next
    case False
    with R have "policy ag s = policy (self\<lparr>policy := Map.empty\<rparr>) s" by blast
    with False show ?thesis by simp
  qed
qed

lemma Agent_init_policy_getAction:
  assumes init: "Agent_init env g eps = Some (Inr ag)" and pol: "policy ag s = Some a"
  shows "getAction ag s = Inr a"
proof -
  from init obtain self where
    p: "policy_loop (self\<lparr>policy := Map.empty\<rparr>) (stateSet env) = Inr ag"
    by (rule Agent_init_split)
  note R = policy_loop_result [OF p]
  from Agent_init_policy_dom [OF init, of s] pol have s: "s \<in> set (stateSet env)" by auto
  with R obtain a' u where
    meu: "actionMaximumExpectedUtility (self\<lparr>policy := Map.empty\<rparr>) s = Inr (a', u)"
    and pol': "policy ag s = Some a'" by blast
  from R have "actionMaximumExpectedUtility ag s =
    actionMaximumExpectedUtility (self\<lparr>policy := Map.empty\<rparr>) s"
    by (intro actionMaximumExpectedUtility_cong) simp_all
  with meu pol pol' show ?thesis by (simp add: getAction_def)
qed

subsection \<open>Runs on the concrete environments\<close>

lemmas run_defs = Agent_init_def while_loop.simps stop_bound_def init_self_def
  actionMaximumExpectedUtility_def fsub_def Let_def inf_times_def

lemma scenario_A_run:
  "Agent_init scenario_A (9 / 10) (1 / 100) = Some (Inr (scenario_A_agent (9 / 10)))"
  by (simp add: run_defs scenario_A_def scenario_A_agent_def)


lemma scenario_D_run:
  "Agent_init scenario_D (9 / 10) (1 / 100) = Some (Inr scenario_D_agent)"
  by (simp add: run_defs scenario_A_def scenario_D_def scenario_D_agent_def)

lemma scenario_C_run:
  "Agent_init scenario_C (9 / 10) (1 / 100) = Some (Inr scenario_C_agent)"
  by (simp add: run_defs scenario_A_def scenario_C_def scenario_C_agent_def)

lemma scenario_sparse_run:
  "Agent_init scenario_sparse (9 / 10) (1 / 100) = Some (Inl KeyError)"
  by (simp add: run_defs scenario_A_def scenario_sparse_def)

lemma scenario_A_sweep:
  "sweeps (init_self scenario_A (9 / 10) (1 / 100)) PInf (Suc 0) =
     Inr (scenario_A_agent (9 / 10)\<lparr>policy := Map.empty\<rparr>, Fin 0)"
  by (simp add: run_defs scenario_A_def scenario_A_agent_def)

lemma scenario_R_sweeps:
  "sweeps (init_self scenario_R (9 / 10) (1 / 100)) PInf (Suc 0) =
     Inr (scenario_R_agent\<lparr>valueUtility := [s0 \<mapsto> Fin 1, s1 \<mapsto> Fin 10]\<rparr>, Fin 1)"
  "sweeps (init_self scenario_R (9 / 10) (1 / 100)) PInf (Suc (Suc 0)) =
     Inr (scenario_R_agent, Fin 9)"
  "sweeps (init_self scenario_R (9 / 10) (1 / 100)) PInf (Suc (Suc (Suc 0))) =
     Inr (scenario_R_agent, Fin 0)"
  by (simp_all add: run_defs scenario_A_def scenario_R_def scenario_R_agent_def)



section \<open>The claims\<close>

subsection \<open>Scenario A\<close>

text \<open>
  Claim C1. On scenario A with discount factor 0.9 and maximum error rate 0.01 the
  constructor returns after one sweep. The value of \<open>s1\<close> is 10 and the policy sends
  \<open>s0\<close> to the only action, but the value of \<open>s0\<close> is 0, not 9: the first sweep
  computes it from the start values, which are all 0, its change is 0, and the change of
  the final state \<open>s1\<close> from 0 to 10 is not counted, so the loop condition fails at
  once. One more sweep would give \<open>s0\<close> the value 9.
\<close>

theorem scenario_A_stops_after_first_sweep:
  "Agent_init scenario_A (9 / 10) (1 / 100) = Some (Inr (scenario_A_agent (9 / 10))) \<and>
   sweeps (init_self scenario_A (9 / 10) (1 / 100)) PInf (Suc 0) =
     Inr (scenario_A_agent (9 / 10)\<lparr>policy := Map.empty\<rparr>, Fin 0) \<and>
   valueUtility (scenario_A_agent (9 / 10)) s1 = Some (Fin 10) \<and>
   valueUtility (scenario_A_agent (9 / 10)) s0 = Some (Fin 0) \<and>
   policy (scenario_A_agent (9 / 10)) s0 = Some (Some go) \<and>
   spec_next_value (scenario_A_agent (9 / 10)) s0 = Inr (Fin 9)"
proof -
  have "spec_next_value (scenario_A_agent (9 / 10)) s0 = Inr (Fin 9)"
    by (simp add: spec_next_value_def run_defs scenario_A_def scenario_A_agent_def)
  with scenario_A_run scenario_A_sweep show ?thesis by (simp add: scenario_A_agent_def)
qed

subsection \<open>The expected utility of an action\<close>




subsection \<open>An empty action set\<close>

text \<open>
  Claim C3, as the code has it. With an empty action set
  \<^verbatim>\<open>actionMaximumExpectedUtility\<close> fails for no state: it returns the pair of
  \<^verbatim>\<open>None\<close> and \<open>-inf\<close>. The first sweep of the constructor does not fail
  either, it gives each state that is not final the value \<open>R(s) + \<gamma> \<cdot> (-inf)\<close>; and the
  constructor never raises \<open>NoFeasibleActionError\<close>.
\<close>

theorem empty_action_set_no_error:
  assumes "actionSet env = []"
  shows "actionMaximumExpectedUtility (init_self env g eps) s = Inr (None, NInf) \<and>
         (\<exists>V' mc'. sweep_loop (init_self env g eps) (stateSet env) (Map.empty, Fin 0) = Inr (V', mc') \<and>
            (\<forall>s \<in> set (stateSet env) - finalStateSet env.
               V' s = Some (fadd (Fin (reward env s)) (fmul (Fin g) NInf)))) \<and>
         Agent_init env g eps \<noteq> Some (Inl NoFeasibleActionError)"
proof (intro conjI)
  let ?self = "init_self env g eps"
  have env: "environment ?self = env" and g: "discountFactor ?self = g"
    by (simp_all add: init_self_def)
  from assms env show meu: "actionMaximumExpectedUtility ?self s = Inr (None, NInf)"
    by (simp add: actionMaximumExpectedUtility_def)
  have "\<forall>s \<in> set (stateSet env). s \<in> finalStateSet (environment ?self) \<or> valueUtility ?self s \<noteq> None"
    by (simp add: init_self_values)
  from sweep_loop_no_actions [of ?self "stateSet env" Map.empty "Fin 0"] assms env this
  obtain V' mc' where sw: "sweep_loop ?self (stateSet env) (Map.empty, Fin 0) = Inr (V', mc')"
    by auto
  have "\<forall>s \<in> set (stateSet env) - finalStateSet env.
          V' s = Some (fadd (Fin (reward env s)) (fmul (Fin g) NInf))"
  proof
    fix s assume s: "s \<in> set (stateSet env) - finalStateSet env"
    with sweep_loop_values [OF sw] obtain v where
      v: "spec_next_value ?self s = Inr v" and V': "V' s = Some v" by blast
    from assms env have "actionMaximumExpectedUtility ?self s = Inr (None, NInf)"
      by (simp add: actionMaximumExpectedUtility_def)
    with v s env g have "v = fadd (Fin (reward env s)) (fmul (Fin g) NInf)"
      by (simp add: spec_next_value_def)
    with V' show "V' s = Some (fadd (Fin (reward env s)) (fmul (Fin g) NInf))" by simp
  qed
  with sw show "\<exists>V' mc'. sweep_loop ?self (stateSet env) (Map.empty, Fin 0) = Inr (V', mc') \<and>
            (\<forall>s \<in> set (stateSet env) - finalStateSet env.
               V' s = Some (fadd (Fin (reward env s)) (fmul (Fin g) NInf)))" by blast
  show "Agent_init env g eps \<noteq> Some (Inl NoFeasibleActionError)"
    using Agent_init_error [of env g eps NoFeasibleActionError] by auto
qed

theorem empty_action_set_no_error_witness:
  "actionSet scenario_D = [] \<and>
   actionMaximumExpectedUtility (init_self scenario_D (9 / 10) (1 / 100)) s0 = Inr (None, NInf) \<and>
   (\<exists>V' mc'. sweep_loop (init_self scenario_D (9 / 10) (1 / 100)) (stateSet scenario_D)
        (Map.empty, Fin 0) = Inr (V', mc') \<and> V' s0 = Some NInf) \<and>
   Agent_init scenario_D (9 / 10) (1 / 100) \<noteq> Some (Inl NoFeasibleActionError)"
proof -
  have h: "actionSet scenario_D = []" by (simp add: scenario_D_def)
  have s: "s0 \<in> set (stateSet scenario_D) - finalStateSet scenario_D"
    by (simp add: scenario_D_def scenario_A_def)
  have v: "fadd (Fin (reward scenario_D s0)) (fmul (Fin (9 / 10)) NInf) = NInf"
    by (simp add: scenario_D_def scenario_A_def inf_times_def)
  from empty_action_set_no_error [OF h, of "9 / 10" "1 / 100" s0] s v h show ?thesis
    by (metis (no_types, lifting))
qed

text \<open>
  Claim C3 as stated fails: on scenario D, whose action set is empty and whose state
  \<open>s0\<close> is not final, the best-action computation returns and the constructor returns
  an agent, with \<^verbatim>\<open>None\<close> as the policy of each state.
\<close>

theorem empty_action_set_counterexample:
  "actionSet scenario_D = [] \<and> s0 \<in> set (stateSet scenario_D) \<and>
   s0 \<notin> finalStateSet scenario_D \<and>
   actionMaximumExpectedUtility (init_self scenario_D (9 / 10) (1 / 100)) s0 = Inr (None, NInf) \<and>
   Agent_init scenario_D (9 / 10) (1 / 100) = Some (Inr scenario_D_agent)"
proof -
  have "actionMaximumExpectedUtility (init_self scenario_D (9 / 10) (1 / 100)) s0 = Inr (None, NInf)"
    by (simp add: run_defs scenario_A_def scenario_D_def)
  with scenario_D_run show ?thesis by (simp add: scenario_D_def scenario_A_def)
qed

subsection \<open>The discount factor\<close>




subsection \<open>getAction\<close>

text \<open>
  Claim C5, as the code has it. \<^verbatim>\<open>getAction\<close> does not read the stored policy:
  it calls \<^verbatim>\<open>actionMaximumExpectedUtility\<close> again. After a construction that
  returned an agent, its result is the stored entry for every state that has one, that is
  for every state of \<^verbatim>\<open>stateSet\<close>; for a state with no entry it is the result of
  that same computation, and never \<open>UnknownStateError\<close>.
\<close>

theorem getAction_recomputes:
  assumes "Agent_init env g eps = Some (Inr ag)"
  shows "(\<forall>a. policy ag s = Some a \<longrightarrow> getAction ag s = Inr a) \<and>
         (policy ag s = None \<longleftrightarrow> s \<notin> set (stateSet env)) \<and>
         getAction ag s \<noteq> Inl UnknownStateError \<and>
         getAction ag s =
           (case actionMaximumExpectedUtility ag s of Inl e \<Rightarrow> Inl e | Inr (a, u) \<Rightarrow> Inr a)"
proof (intro conjI allI impI)
  fix a assume "policy ag s = Some a"
  with assms show "getAction ag s = Inr a" by (rule Agent_init_policy_getAction)
next
  from assms show "policy ag s = None \<longleftrightarrow> s \<notin> set (stateSet env)"
    by (rule Agent_init_policy_dom)
  show "getAction ag s \<noteq> Inl UnknownStateError"
    using getAction_error [of ag s UnknownStateError] by auto
  show "getAction ag s =
           (case actionMaximumExpectedUtility ag s of Inl e \<Rightarrow> Inl e | Inr (a, u) \<Rightarrow> Inr a)"
    by (simp add: getAction_def)
qed

theorem getAction_recomputes_witness:
  "Agent_init scenario_A (9 / 10) (1 / 100) = Some (Inr (scenario_A_agent (9 / 10))) \<and>
   policy (scenario_A_agent (9 / 10)) s1 = Some (Some go) \<and>
   getAction (scenario_A_agent (9 / 10)) s1 = Inr (Some go) \<and>
   getAction (scenario_A_agent (9 / 10)) s2 \<noteq> Inl UnknownStateError"
proof -
  have pol: "policy (scenario_A_agent (9 / 10)) s1 = Some (Some go)"
    by (simp add: scenario_A_agent_def)
  from getAction_recomputes [OF scenario_A_run, of s1] pol
  have "getAction (scenario_A_agent (9 / 10)) s1 = Inr (Some go)" by blast
  moreover from getAction_recomputes [OF scenario_A_run, of s2]
  have "getAction (scenario_A_agent (9 / 10)) s2 \<noteq> Inl UnknownStateError" by blast
  ultimately show ?thesis using scenario_A_run pol by blast
qed

text \<open>
  Claim C5 as stated fails: the state \<open>s2\<close> is not in the policy of the agent built
  for scenario A, and \<^verbatim>\<open>getAction\<close> returns an action for it.
\<close>

theorem getAction_unknown_state_counterexample:
  "Agent_init scenario_A (9 / 10) (1 / 100) = Some (Inr (scenario_A_agent (9 / 10))) \<and>
   s2 \<notin> set (stateSet scenario_A) \<and>
   policy (scenario_A_agent (9 / 10)) s2 = None \<and>
   getAction (scenario_A_agent (9 / 10)) s2 = Inr (Some go)"
proof -
  have "getAction (scenario_A_agent (9 / 10)) s2 = Inr (Some go)"
    by (simp add: getAction_def run_defs scenario_A_def scenario_A_agent_def)
  with scenario_A_run show ?thesis by (simp add: scenario_A_def scenario_A_agent_def)
qed

subsection \<open>Transition probabilities that do not sum to one\<close>

text \<open>
  Claim C6, as the code has it. The constructor does not validate the transition
  probabilities: it never raises \<open>MalformedTransitionError\<close>. The only errors it can
  end with are \<open>KeyError\<close>, and \<open>ZeroDivisionError\<close> when the discount factor
  is 0.
\<close>

theorem construction_errors:
  assumes "Agent_init env g eps = Some (Inl e)"
  shows "e \<noteq> MalformedTransitionError \<and> (e = KeyError \<or> e = ZeroDivisionError \<and> g = 0)"
  using Agent_init_error [OF assms] by auto

theorem construction_errors_witness:
  "Agent_init scenario_sparse (9 / 10) (1 / 100) = Some (Inl KeyError) \<and>
   KeyError \<noteq> MalformedTransitionError"
  using construction_errors [OF scenario_sparse_run] scenario_sparse_run by simp

text \<open>
  Claim C6 as stated fails: in scenario C the probabilities of the transition from
  \<open>s0\<close> sum to one half, and the constructor returns an agent.
\<close>

theorem half_probability_counterexample:
  "(\<Sum>s' \<leftarrow> stateSet scenario_C. the (transition scenario_C s0 go s')) = 1 / 2 \<and>
   Agent_init scenario_C (9 / 10) (1 / 100) = Some (Inr scenario_C_agent)"
proof -
  have "(\<Sum>s' \<leftarrow> stateSet scenario_C. the (transition scenario_C s0 go s')) = 1 / 2"
    by (simp add: scenario_C_def scenario_A_def)
  with scenario_C_run show ?thesis by simp
qed

subsection \<open>The stopping rule\<close>



subsection \<open>Final states\<close>

text \<open>
  Claim C8. After every sweep \<open>n \<ge> 1\<close>, from any start, the value of each final
  state of \<^verbatim>\<open>stateSet\<close> is its reward, whatever the discount factor and the values
  of the other states.
\<close>

theorem final_states_pinned:
  assumes run: "sweeps self mc n = Inr (self', mc')" and n: "0 < n"
    and s: "s \<in> set (stateSet (environment self))"
    and final: "s \<in> finalStateSet (environment self)"
  shows "valueUtility self' s = Some (Fin (reward (environment self) s))"
proof -
  from n obtain m where "n = Suc m" by (cases n) auto
  with run sweeps_last obtain self1 mc1 nxt where
    before: "sweeps self mc m = Inr (self1, mc1)" and
    sweep: "sweep_loop self1 (stateSet (environment self1)) (Map.empty, Fin 0) = Inr (nxt, mc')" and
    self': "self' = self1\<lparr>valueUtility := nxt\<rparr>"
    by blast
  from sweeps_frame [OF before] have env: "environment self1 = environment self" by simp
  from sweep_loop_values [OF sweep] s env obtain v where
    "spec_next_value self1 s = Inr v" and "nxt s = Some v" by auto
  with final env self' show ?thesis by (simp add: spec_next_value_def)
qed

theorem final_states_pinned_witness:
  "sweeps (init_self scenario_R (9 / 10) (1 / 100)) PInf (Suc (Suc 0)) =
     Inr (scenario_R_agent, Fin 9) \<and>
   0 < Suc (Suc 0) \<and>
   s1 \<in> set (stateSet (environment (init_self scenario_R (9 / 10) (1 / 100)))) \<and>
   s1 \<in> finalStateSet (environment (init_self scenario_R (9 / 10) (1 / 100))) \<and>
   valueUtility scenario_R_agent s1 = Some (Fin 10)"
proof -
  have n: "0 < Suc (Suc 0)" by simp
  have s: "s1 \<in> set (stateSet (environment (init_self scenario_R (9 / 10) (1 / 100))))"
    and f: "s1 \<in> finalStateSet (environment (init_self scenario_R (9 / 10) (1 / 100)))"
    by (simp_all add: init_self_def scenario_R_def scenario_A_def)
  have r: "reward (environment (init_self scenario_R (9 / 10) (1 / 100))) s1 = 10"
    by (simp add: init_self_def scenario_R_def scenario_A_def)
  from final_states_pinned [OF scenario_R_sweeps(2) n s f] r
  have "valueUtility scenario_R_agent s1 = Some (Fin 10)" by simp
  with scenario_R_sweeps(2) n s f show ?thesis by blast
qed

subsection \<open>Sweeps read the previous value function only\<close>

text \<open>
  Claim C9. The value function after sweep \<open>n + 1\<close> gives each state of
  \<^verbatim>\<open>stateSet\<close> the value computed from the value function after sweep \<open>n\<close>
  alone (the values already computed in the running sweep are not read), and it has no
  other entry: it replaces the previous one as a whole.
\<close>

theorem sweep_reads_previous_snapshot:
  assumes n: "sweeps self mc n = Inr (self_n, mc_n)"
    and Sn: "sweeps self mc (Suc n) = Inr (self_Sn, mc_Sn)"
  shows "(\<forall>s \<in> set (stateSet (environment self)).
            \<exists>v. spec_next_value self_n s = Inr v \<and> valueUtility self_Sn s = Some v) \<and>
         (\<forall>s. s \<notin> set (stateSet (environment self)) \<longrightarrow> valueUtility self_Sn s = None)"
proof -
  from sweeps_last [OF Sn] n obtain nxt where
    sw: "sweep_loop self_n (stateSet (environment self_n)) (Map.empty, Fin 0) = Inr (nxt, mc_Sn)"
    and self_Sn: "self_Sn = self_n\<lparr>valueUtility := nxt\<rparr>" by auto
  from sweeps_frame [OF n] have env: "environment self_n = environment self" by simp
  from sweep_loop_values [OF sw] env self_Sn show ?thesis by simp
qed

theorem sweep_reads_previous_snapshot_witness:
  "sweeps (init_self scenario_R (9 / 10) (1 / 100)) PInf (Suc 0) =
     Inr (scenario_R_agent\<lparr>valueUtility := [s0 \<mapsto> Fin 1, s1 \<mapsto> Fin 10]\<rparr>, Fin 1) \<and>
   sweeps (init_self scenario_R (9 / 10) (1 / 100)) PInf (Suc (Suc 0)) =
     Inr (scenario_R_agent, Fin 9) \<and>
   spec_next_value (scenario_R_agent\<lparr>valueUtility := [s0 \<mapsto> Fin 1, s1 \<mapsto> Fin 10]\<rparr>) s0 =
     Inr (Fin 10) \<and>
   valueUtility scenario_R_agent s0 = Some (Fin 10) \<and>
   valueUtility scenario_R_agent s2 = None"
proof -
  have s: "s0 \<in> set (stateSet (environment (init_self scenario_R (9 / 10) (1 / 100))))"
    and s': "s2 \<notin> set (stateSet (environment (init_self scenario_R (9 / 10) (1 / 100))))"
    by (simp_all add: init_self_def scenario_R_def scenario_A_def)
  have v: "valueUtility scenario_R_agent s0 = Some (Fin 10)" by (simp add: scenario_R_agent_def)
  note T = sweep_reads_previous_snapshot [OF scenario_R_sweeps(1) scenario_R_sweeps(2)]
  from T s v have "spec_next_value (scenario_R_agent\<lparr>valueUtility := [s0 \<mapsto> Fin 1, s1 \<mapsto> Fin 10]\<rparr>) s0 =
     Inr (Fin 10)" by fastforce
  moreover from T s' have "valueUtility scenario_R_agent s2 = None" by blast
  ultimately show ?thesis using scenario_R_sweeps(1,2) v by blast
qed

subsection \<open>getAction and the stored policy\<close>

text \<open>
  Claim C10. After a construction that returned an agent, \<^verbatim>\<open>getAction\<close> gives for
  every state of \<^verbatim>\<open>stateSet\<close> the action stored in \<^verbatim>\<open>policy\<close> for that
  state: both come from \<^verbatim>\<open>actionMaximumExpectedUtility\<close> on the same environment
  and the same \<^verbatim>\<open>valueUtility\<close>, which the policy loop does not change.
\<close>

theorem getAction_is_policy:
  assumes init: "Agent_init env g eps = Some (Inr ag)" and s: "s \<in> set (stateSet env)"
  shows "\<exists>a. policy ag s = Some a \<and> getAction ag s = Inr a"
proof -
  from init obtain self where
    p: "policy_loop (self\<lparr>policy := Map.empty\<rparr>) (stateSet env) = Inr ag"
    by (rule Agent_init_split)
  note R = policy_loop_result [OF p]
  from R s obtain a u where
    meu: "actionMaximumExpectedUtility (self\<lparr>policy := Map.empty\<rparr>) s = Inr (a, u)"
    and pol: "policy ag s = Some a" by blast
  from R have "actionMaximumExpectedUtility ag s =
    actionMaximumExpectedUtility (self\<lparr>policy := Map.empty\<rparr>) s"
    by (intro actionMaximumExpectedUtility_cong) simp_all
  with meu pol show ?thesis by (simp add: getAction_def)
qed

theorem getAction_is_policy_witness:
  "Agent_init scenario_A (9 / 10) (1 / 100) = Some (Inr (scenario_A_agent (9 / 10))) \<and>
   s0 \<in> set (stateSet scenario_A) \<and>
   policy (scenario_A_agent (9 / 10)) s0 = Some (Some go) \<and>
   getAction (scenario_A_agent (9 / 10)) s0 = Inr (Some go)"
proof -
  have mem: "s0 \<in> set (stateSet scenario_A)" by (simp add: scenario_A_def)
  have pol: "policy (scenario_A_agent (9 / 10)) s0 = Some (Some go)"
    by (simp add: scenario_A_agent_def)
  from getAction_is_policy [OF scenario_A_run mem] pol
  have "getAction (scenario_A_agent (9 / 10)) s0 = Inr (Some go)" by simp
  with scenario_A_run mem pol show ?thesis by simp
qed

end
